theory Spec2Isabelle
  imports Main "HOL-Library.AList" "HOL-Library.Char_ord" "HOL-Library.List_Lexorder"
begin

section \<open>JavaScript values used by the messaging code\<close>

text \<open>
  Identities, socket ids, conversation ids and message ids are JavaScript strings.
  A value that may also be \<^verbatim>\<open>undefined\<close> (a missing payload field, a missing array
  element, a \<^verbatim>\<open>Map.get\<close> miss) is a \<open>string option\<close>, \<open>None\<close> being \<^verbatim>\<open>undefined\<close>.
\<close>

type_synonym jstr = "string option"

text \<open>JavaScript truthiness of a string-or-undefined: \<^verbatim>\<open>undefined\<close> and \<^verbatim>\<open>''\<close> are falsy.\<close>

fun truthy :: "jstr \<Rightarrow> bool" where
  "truthy None = False"
| "truthy (Some s) = (s \<noteq> [])"

text \<open>\<^verbatim>\<open>a || b\<close>: the left operand if it is truthy, else the right one as it is.\<close>

definition js_or :: "jstr \<Rightarrow> jstr \<Rightarrow> jstr" where
  "js_or a b = (if truthy a then a else b)"

text \<open>
  \<^verbatim>\<open>Array.prototype.join(sep)\<close> on an array of strings, and
  \<^verbatim>\<open>String.prototype.split(c)\<close> for a one-character separator (the empty string
  splits into one empty segment).
\<close>

fun join_with :: "string \<Rightarrow> string list \<Rightarrow> string" where
  "join_with sep [] = []"
| "join_with sep [x] = x"
| "join_with sep (x # y # ys) = x @ sep @ join_with sep (y # ys)"

fun split_at :: "char \<Rightarrow> string \<Rightarrow> string list" where
  "split_at c [] = [[]]"
| "split_at c (x # xs) =
     (if x = c then [] # split_at c xs
      else (case split_at c xs of
              [] \<Rightarrow> [[x]]
            | w # ws \<Rightarrow> (x # w) # ws))"

text \<open>
  A JavaScript \<^verbatim>\<open>Map\<close> is an association list in insertion order: \<^verbatim>\<open>set\<close> replaces the
  value of a key already present in place and appends a new key, \<^verbatim>\<open>delete\<close> removes the
  key, \<^verbatim>\<open>get\<close> yields \<^verbatim>\<open>undefined\<close> for a missing key, \<^verbatim>\<open>keys()\<close> lists the keys in
  insertion order.
\<close>

type_synonym ('k, 'v) jsmap = "('k \<times> 'v) list"

definition map_set :: "'k \<Rightarrow> 'v \<Rightarrow> ('k, 'v) jsmap \<Rightarrow> ('k, 'v) jsmap" where
  "map_set k v m = AList.update k v m"

definition map_delete :: "'k \<Rightarrow> ('k, 'v) jsmap \<Rightarrow> ('k, 'v) jsmap" where
  "map_delete k m = AList.delete k m"

definition map_get :: "('k, 'v) jsmap \<Rightarrow> 'k \<Rightarrow> 'v option" where
  "map_get m k = map_of m k"

definition map_keys :: "('k, 'v) jsmap \<Rightarrow> 'k list" where
  "map_keys m = map fst m"

section \<open>Conversation identifiers\<close>

text \<open>
  \<^verbatim>\<open>const conversationId = [senderId, recipient].sort().join('_');\<close>
  (message controller, sendMessage). The default \<^verbatim>\<open>sort\<close> compares strings by code unit,
  lexicographically, a proper prefix first: the order of \<open>List_Lexorder\<close> over \<open>Char_ord\<close>.
\<close>

definition conversationId :: "string \<Rightarrow> string \<Rightarrow> string" where
  "conversationId senderId recipient = join_with ''_'' (sort [senderId, recipient])"

text \<open>
  The read paths do not compute the identifier; they take it from the client and recover the
  other participant from it:
  \<^verbatim>\<open>const [user1, user2] = conversationId.split('_');
  const otherUserId = user1 === userId ? user2 : user1;\<close>
  (socket handler markAsRead and REST markAsRead). Destructuring yields \<^verbatim>\<open>undefined\<close> for
  a missing second segment; the reader's identity may itself be \<^verbatim>\<open>undefined\<close> on the socket.
\<close>

definition otherUser :: "string \<Rightarrow> jstr \<Rightarrow> jstr" where
  "otherUser cid userId =
     (let parts = split_at CHR ''_'' cid;
          user1 = (case parts of [] \<Rightarrow> None | a # _ \<Rightarrow> Some a);
          user2 = (case parts of a # b # _ \<Rightarrow> Some b | _ \<Rightarrow> None)
      in if user1 = userId then user2 else user1)"

section \<open>Events pushed through socket.io\<close>

text \<open>
  An emitted event records the call made, \<^verbatim>\<open>io.to(room).emit\<close> or \<^verbatim>\<open>io.emit\<close>
  (broadcast), with the event name and payload.
\<close>

datatype target = Room jstr | Everyone

record message =
  msg_id :: string
  sender :: string
  recipient :: string
  messageText :: jstr
  product :: jstr
  image :: jstr
  images :: "string list"
  isRead :: bool
  readAt :: "nat option"
  createdAt :: nat

datatype payload =
    OnlineUsers "jstr list"
  | NewMessage message string
  | MessagesRead jstr string "string list option"
  | MessageDeleted string
  | UserTyping string jstr bool

type_synonym emitted = "target \<times> payload"

section \<open>Presence and focus: the socket server\<close>

text \<open>
  \<^verbatim>\<open>onlineUsers\<close> (userId -> socketId) and \<^verbatim>\<open>activeConversations\<close> (userId ->
  conversationId) are the two module-level Maps of socket.js. \<open>sockets\<close> is socket.io's own
  table of connected sockets (socket id -> the \<^verbatim>\<open>userId\<close> bound by the middleware and
  the rooms joined); a socket is a member of the room named by its own id from the start.
\<close>

record sock =
  userId :: jstr
  rooms :: "jstr list"

record server =
  onlineUsers :: "(jstr, string) jsmap"
  activeConversations :: "(jstr, string) jsmap"
  sockets :: "(string, sock) jsmap"

definition init_server :: server where
  "init_server = \<lparr>onlineUsers = [], activeConversations = [], sockets = []\<rparr>"

text \<open>
  The payload of a verified token; \<^verbatim>\<open>jwt.verify\<close> is the external credential verifier,
  taken as a parameter: \<open>None\<close> when it throws (missing token, bad signature, expired).
\<close>

record decoded =
  d_userId :: jstr
  d_id :: jstr
  d__id :: jstr

type_synonym verifier = "jstr \<Rightarrow> decoded option"

datatype db_op = Create | Populate | Save | FindMessage | DeleteOne | MarkRead | FindUser

datatype error =
    AppError string nat
  | ReferenceError string
  | Error string
  | DbError db_op
  | EmailError

text \<open>
  The authentication middleware \<^verbatim>\<open>io.use\<close>: on success it binds
  \<^verbatim>\<open>decoded.userId || decoded.id || decoded._id\<close> to the socket and calls \<^verbatim>\<open>next()\<close>;
  on any throw it calls \<^verbatim>\<open>next(new Error('Authentication error'))\<close>.
\<close>

definition auth_middleware :: "verifier \<Rightarrow> jstr \<Rightarrow> error + jstr" where
  "auth_middleware verify token =
     (case verify token of
        None \<Rightarrow> Inl (Error ''Authentication error'')
      | Some d \<Rightarrow> Inr (js_or (js_or (d_userId d) (d_id d)) (d__id d)))"

text \<open>\<^verbatim>\<open>socket.join(r)\<close> and \<^verbatim>\<open>socket.leave(r)\<close>: the rooms of a socket are a set.\<close>

definition add_room :: "jstr \<Rightarrow> sock \<Rightarrow> sock" where
  "add_room r k = (if r \<in> set (rooms k) then k else k\<lparr>rooms := rooms k @ [r]\<rparr>)"

definition del_room :: "jstr \<Rightarrow> sock \<Rightarrow> sock" where
  "del_room r k = k\<lparr>rooms := removeAll r (rooms k)\<rparr>"

text \<open>The connection handler, run by socket.io once the middleware has accepted.\<close>

definition on_connection :: "server \<Rightarrow> string \<Rightarrow> jstr \<Rightarrow> server \<times> emitted list" where
  "on_connection s sid uid =
     (let ou = map_set uid sid (onlineUsers s);
          s' = s\<lparr>onlineUsers := ou,
                 sockets := map_set sid (add_room uid \<lparr>userId = uid, rooms = [Some sid]\<rparr>) (sockets s)\<rparr>
      in (s', [(Everyone, OnlineUsers (map_keys ou))]))"

text \<open>
  A connection attempt: socket.io runs the middleware and fires \<^verbatim>\<open>connection\<close> only when
  it called \<^verbatim>\<open>next()\<close> without an error; otherwise the attempt is refused.
\<close>

definition connect :: "verifier \<Rightarrow> server \<Rightarrow> string \<Rightarrow> jstr \<Rightarrow> server \<times> emitted list \<times> error option" where
  "connect verify s sid token =
     (case auth_middleware verify token of
        Inl e \<Rightarrow> (s, [], Some e)
      | Inr uid \<Rightarrow> (let (s', out) = on_connection s sid uid in (s', out, None)))"

text \<open>
  The per-socket handlers; \<open>k\<close> is the socket (its bound \<^verbatim>\<open>userId\<close> and its rooms). The
  handlers \<^verbatim>\<open>sendMessage\<close> and \<^verbatim>\<open>deleteMessage\<close> of the socket only relay a
  client payload to a room named by the client and touch neither Map; they are left out.
\<close>

definition on_joinConversation :: "server \<Rightarrow> string \<Rightarrow> sock \<Rightarrow> string \<Rightarrow> server \<times> emitted list" where
  "on_joinConversation s sid k cid =
     (s\<lparr>sockets := map_set sid (add_room (Some cid) k) (sockets s),
        activeConversations := map_set (userId k) cid (activeConversations s)\<rparr>, [])"

definition on_leaveConversation :: "server \<Rightarrow> string \<Rightarrow> sock \<Rightarrow> string \<Rightarrow> server \<times> emitted list" where
  "on_leaveConversation s sid k cid =
     (s\<lparr>sockets := map_set sid (del_room (Some cid) k) (sockets s),
        activeConversations := map_delete (userId k) (activeConversations s)\<rparr>, [])"

definition on_typing :: "server \<Rightarrow> sock \<Rightarrow> string \<Rightarrow> jstr \<Rightarrow> bool \<Rightarrow> server \<times> emitted list" where
  "on_typing s k cid recipientId isTyping =
     (s, [(Room recipientId, UserTyping cid (userId k) isTyping)])"

definition on_markAsRead :: "server \<Rightarrow> sock \<Rightarrow> string \<Rightarrow> server \<times> emitted list" where
  "on_markAsRead s k cid =
     (s, [(Room (otherUser cid (userId k)), MessagesRead (userId k) cid None)])"

definition on_disconnect :: "server \<Rightarrow> string \<Rightarrow> sock \<Rightarrow> server \<times> emitted list" where
  "on_disconnect s sid k =
     (let ou = map_delete (userId k) (onlineUsers s);
          s' = s\<lparr>sockets := map_delete sid (sockets s),
                 onlineUsers := ou,
                 activeConversations := map_delete (userId k) (activeConversations s)\<rparr>
      in (s', [(Everyone, OnlineUsers (map_keys ou))]))"

text \<open>
  Inbound traffic. An event on a socket id that is not connected has no handler and is dropped.
\<close>

datatype inbound =
    Connect string jstr
  | JoinConversation string string
  | LeaveConversation string string
  | Typing string string jstr bool
  | MarkAsRead string string
  | Disconnect string

fun step :: "verifier \<Rightarrow> server \<Rightarrow> inbound \<Rightarrow> server \<times> emitted list" where
  "step verify s (Connect sid token) =
     (let (s', out, _) = connect verify s sid token in (s', out))"
| "step verify s (JoinConversation sid cid) =
     (case map_get (sockets s) sid of None \<Rightarrow> (s, [])
      | Some k \<Rightarrow> on_joinConversation s sid k cid)"
| "step verify s (LeaveConversation sid cid) =
     (case map_get (sockets s) sid of None \<Rightarrow> (s, [])
      | Some k \<Rightarrow> on_leaveConversation s sid k cid)"
| "step verify s (Typing sid cid recipientId isTyping) =
     (case map_get (sockets s) sid of None \<Rightarrow> (s, [])
      | Some k \<Rightarrow> on_typing s k cid recipientId isTyping)"
| "step verify s (MarkAsRead sid cid) =
     (case map_get (sockets s) sid of None \<Rightarrow> (s, [])
      | Some k \<Rightarrow> on_markAsRead s k cid)"
| "step verify s (Disconnect sid) =
     (case map_get (sockets s) sid of None \<Rightarrow> (s, [])
      | Some k \<Rightarrow> on_disconnect s sid k)"

fun run :: "verifier \<Rightarrow> server \<Rightarrow> inbound list \<Rightarrow> server" where
  "run verify s [] = s"
| "run verify s (e # es) = run verify (fst (step verify s e)) es"

text \<open>The connections that receive an event sent to a room: the sockets that joined it.\<close>

definition receivers :: "server \<Rightarrow> jstr \<Rightarrow> string list" where
  "receivers s r = map fst (filter (\<lambda>(sid, k). r \<in> set (rooms k)) (sockets s))"

text \<open>Presence and focus as the REST paths read them.\<close>

definition isOnline :: "server \<Rightarrow> string \<Rightarrow> bool" where
  "isOnline s u = truthy (map_get (onlineUsers s) (Some u))"

definition focusOf :: "server \<Rightarrow> string \<Rightarrow> jstr" where
  "focusOf s u = map_get (activeConversations s) (Some u)"

section \<open>The message store and the REST environment\<close>

text \<open>
  What a request sees of the world outside the controller: whether \<^verbatim>\<open>app.get('io')\<close> is
  set (server.js sets it before listening), the clock, the id the store gives the next
  document, which store calls reject, the account store behind \<^verbatim>\<open>User.findById\<close>, and
  whether the mail transport rejects.
\<close>

record user =
  u_name :: string
  u_email :: jstr

record env =
  io_set :: bool
  now :: nat
  fresh_id :: string
  db_throws :: "db_op \<Rightarrow> bool"
  users :: "string \<Rightarrow> user option"
  email_throws :: bool

record response =
  status :: nat
  text_of :: string
  data :: "message option"

text \<open>
  A mail as the transport receives it from \<^verbatim>\<open>sendNewMessageEmail\<close>: the address, the
  subject, and the two variable parts of the HTML template (the sender's name and the
  message preview).
\<close>

record mail =
  mail_to :: string
  mail_subject :: string
  mail_sender :: string
  mail_preview :: string

text \<open>
  What a controller leaves behind: the message collection, the socket events emitted, the
  mails the transport accepted, the lines written to \<^verbatim>\<open>console.error\<close> (their fixed
  first argument), and the outcome of the request (\<open>Inl\<close> the error passed on by
  \<^verbatim>\<open>asyncHandler\<close>, \<open>Inr\<close> the response).
\<close>

record result =
  store :: "message list"
  events :: "emitted list"
  emails :: "mail list"
  logs :: "string list"
  outcome :: "error + response"

definition failed :: "message list \<Rightarrow> error \<Rightarrow> result" where
  "failed db e = \<lparr>store = db, events = [], emails = [], logs = [], outcome = Inl e\<rparr>"

record send_body =
  b_recipient :: string
  b_messageText :: jstr
  b_product :: jstr
  b_image :: jstr
  b_images :: "string list option"

record messageData =
  md_sender :: string
  md_recipient :: string
  md_messageText :: jstr
  md_product :: jstr
  md_image :: jstr
  md_images :: "string list option"

text \<open>
  \<^verbatim>\<open>if (images && Array.isArray(images)) messageData.images = images;
  else if (image) { messageData.images = [image]; messageData.image = image; }\<close>
  (\<open>b_images\<close> is \<open>Some\<close> exactly when the body carries an array.)
\<close>

definition build_messageData :: "string \<Rightarrow> send_body \<Rightarrow> messageData" where
  "build_messageData senderId body =
     (let md = \<lparr>md_sender = senderId, md_recipient = b_recipient body,
                 md_messageText = b_messageText body, md_product = b_product body,
                 md_image = None, md_images = None\<rparr>
      in case b_images body of
           Some l \<Rightarrow> md\<lparr>md_images := Some l\<rparr>
         | None \<Rightarrow>
             (case b_image body of
                None \<Rightarrow> md
              | Some i \<Rightarrow> if i = [] then md else md\<lparr>md_images := Some [i], md_image := Some i\<rparr>))"

text \<open>
  Modelled from the spec: the Message model (Message.model.js) is not among the sources.
  \<^verbatim>\<open>Message.create\<close> persists a new message with \<open>isRead = false\<close> and no \<open>readAt\<close>
  (spec 4.5 step 1), under the id and creation time the store assigns.
\<close>

definition Message_create :: "env \<Rightarrow> message list \<Rightarrow> messageData \<Rightarrow> error + (message \<times> message list)" where
  "Message_create e db md =
     (if db_throws e Create then Inl (DbError Create)
      else let m = \<lparr>msg_id = fresh_id e, sender = md_sender md, recipient = md_recipient md,
                     messageText = md_messageText md, product = md_product md,
                     image = md_image md,
                     images = (case md_images md of None \<Rightarrow> [] | Some l \<Rightarrow> l),
                     isRead = False, readAt = None, createdAt = now e\<rparr>
           in Inr (m, db @ [m]))"

text \<open>\<^verbatim>\<open>message.save()\<close>: the document with the message's id is replaced by the message.\<close>

definition Message_save :: "message list \<Rightarrow> message \<Rightarrow> message list" where
  "Message_save db m = map (\<lambda>x. if msg_id x = msg_id m then m else x) db"

text \<open>\<^verbatim>\<open>Message.findById(id)\<close> and \<^verbatim>\<open>message.deleteOne()\<close>.\<close>

definition Message_findById :: "message list \<Rightarrow> string \<Rightarrow> message option" where
  "Message_findById db i = find (\<lambda>m. msg_id m = i) db"

definition Message_deleteOne :: "message list \<Rightarrow> message \<Rightarrow> message list" where
  "Message_deleteOne db m = filter (\<lambda>x. msg_id x \<noteq> msg_id m) db"

text \<open>
  Modelled from the spec: \<^verbatim>\<open>Message.markConversationAsRead\<close> is a static of the Message
  model, which is not among the sources. It "durably flips \<open>isRead\<close> on every unread message
  in that conversation addressed to \<open>readerId\<close>, collecting affected message ids" (spec 4.6).
\<close>

definition unread_for :: "string \<Rightarrow> string \<Rightarrow> message \<Rightarrow> bool" where
  "unread_for cid readerId m \<longleftrightarrow>
     \<not> isRead m \<and> recipient m = readerId \<and> conversationId (sender m) (recipient m) = cid"

definition markConversationAsRead :: "nat \<Rightarrow> message list \<Rightarrow> string \<Rightarrow> string \<Rightarrow> message list \<times> string list" where
  "markConversationAsRead t db cid readerId =
     (map (\<lambda>m. if unread_for cid readerId m then m\<lparr>isRead := True, readAt := Some t\<rparr> else m) db,
      map msg_id (filter (unread_for cid readerId) db))"

section \<open>The message controller\<close>

text \<open>Decimal rendering of a number inside a template literal.\<close>

fun show_nat :: "nat \<Rightarrow> string" where
  "show_nat n =
     (if n < 10 then [char_of (48 + n)]
      else show_nat (n div 10) @ [char_of (48 + n mod 10)])"

text \<open>
  emailService.js. \<^verbatim>\<open>sendEmail\<close> hands the mail to the transport; when the transport
  rejects it writes \<^verbatim>\<open>console.error('Error sending email:', ...)\<close> and rethrows.
  \<^verbatim>\<open>sendNewMessageEmail\<close> builds the subject and cuts the preview:
  \<^verbatim>\<open>messagePreview.substring(0, 150)\<close> followed by \<^verbatim>\<open>'...'\<close> when the preview is
  longer than 150. Both return the lines logged and the outcome.
\<close>

definition sendEmail :: "env \<Rightarrow> mail \<Rightarrow> string list \<times> (error + mail)" where
  "sendEmail e m =
     (if email_throws e then ([''Error sending email:''], Inl EmailError)
      else ([], Inr m))"

definition sendNewMessageEmail :: "env \<Rightarrow> string \<Rightarrow> string \<Rightarrow> string \<Rightarrow> string list \<times> (error + mail)" where
  "sendNewMessageEmail e recipientEmail senderName messagePreview =
     sendEmail e \<lparr>mail_to = recipientEmail,
                  mail_subject = ''New Message from '' @ senderName,
                  mail_sender = senderName,
                  mail_preview = take 150 messagePreview
                                 @ (if length messagePreview > 150 then ''...'' else [])\<rparr>"

text \<open>
  The body of the \<^verbatim>\<open>try\<close> block of sendMessage: look both accounts up and send the
  mail. The result is the lines logged inside the block and its outcome: \<open>Inl\<close> a throw
  inside the block, \<open>Inr\<close> the mails sent.
\<close>

definition notify_recipient :: "env \<Rightarrow> message \<Rightarrow> string \<Rightarrow> string \<Rightarrow> jstr \<Rightarrow> string list \<times> (error + mail list)" where
  "notify_recipient e m recipientId senderId msgText =
     (if db_throws e FindUser then ([], Inl (DbError FindUser))
      else case (users e recipientId, users e senderId) of
             (Some recipientUser, Some senderUser) \<Rightarrow>
               (case u_email recipientUser of
                  None \<Rightarrow> ([], Inr [])
                | Some addr \<Rightarrow>
                    if addr = [] then ([], Inr [])
                    else let imageCount = length (images m);
                             emailContent =
                               (case msgText of
                                  Some t \<Rightarrow> if t \<noteq> [] then t
                                            else if imageCount > 1
                                              then ''['' @ show_nat imageCount @ '' Images]''
                                              else ''[Image]''
                                | None \<Rightarrow> if imageCount > 1
                                            then ''['' @ show_nat imageCount @ '' Images]''
                                            else ''[Image]'')
                         in case sendNewMessageEmail e addr (u_name senderUser) emailContent of
                              (ls, Inl err) \<Rightarrow> (ls, Inl err)
                            | (ls, Inr sent) \<Rightarrow> (ls, Inr [sent]))
           | _ \<Rightarrow> ([], Inr []))"

text \<open>sendMessage (REST): persist, decide auto-read from the recipient's focus, push, mail.\<close>

definition sendMessage :: "env \<Rightarrow> server \<Rightarrow> message list \<Rightarrow> string \<Rightarrow> send_body \<Rightarrow> result" where
  "sendMessage e srv db senderId body =
     (let recipientId = b_recipient body in
      case Message_create e db (build_messageData senderId body) of
        Inl err \<Rightarrow> failed db err
      | Inr (created, db1) \<Rightarrow>
          if db_throws e Populate then failed db1 (DbError Populate)
          else
            let cid = conversationId senderId recipientId;
                recipientActiveConversation = map_get (activeConversations srv) (Some recipientId);
                isRecipientViewingConversation = (recipientActiveConversation = Some cid)
            in if isRecipientViewingConversation \<and> db_throws e Save then failed db1 (DbError Save)
               else
                 let m = (if isRecipientViewingConversation
                          then created\<lparr>isRead := True, readAt := Some (now e)\<rparr> else created);
                     db2 = (if isRecipientViewingConversation then Message_save db1 m else db1);
                     recipientSocketId = map_get (onlineUsers srv) (Some recipientId);
                     senderSocketId = map_get (onlineUsers srv) (Some senderId);
                     evs = (if io_set e \<and> truthy recipientSocketId
                            then (Room recipientSocketId, NewMessage m cid) #
                                 (if isRecipientViewingConversation \<and> truthy senderSocketId
                                  then [(Room senderSocketId,
                                         MessagesRead (Some recipientId) cid (Some [msg_id m]))]
                                  else [])
                            else []);
                     mail = notify_recipient e m recipientId senderId (b_messageText body)
                 in \<lparr>store = db2, events = evs,
                     emails = (case snd mail of Inl _ \<Rightarrow> [] | Inr ms \<Rightarrow> ms),
                     logs = fst mail @
                            (case snd mail of
                               Inl _ \<Rightarrow> [''Failed to send message notification email:'']
                             | Inr _ \<Rightarrow> []),
                     outcome = Inr \<lparr>status = 201, text_of = ''Message sent successfully'',
                                    data = Some m\<rparr>\<rparr>)"

text \<open>
  The names bound in the message controller's module scope are its imports. An identifier
  that is not bound there throws a ReferenceError when it is evaluated; the controller
  writes \<^verbatim>\<open>new AppError(...)\<close> without importing AppError.
\<close>

definition message_controller_imports :: "string list" where
  "message_controller_imports =
     [''asyncHandler'', ''Message'', ''User'', ''successResponse'', ''sendNewMessageEmail'',
      ''onlineUsers'', ''activeConversations'']"

definition new_AppError :: "string list \<Rightarrow> string \<Rightarrow> nat \<Rightarrow> error" where
  "new_AppError scope msg code =
     (if ''AppError'' \<in> set scope then AppError msg code
      else ReferenceError ''AppError is not defined'')"

text \<open>deleteMessage (REST, sender only).\<close>

definition deleteMessage :: "env \<Rightarrow> server \<Rightarrow> message list \<Rightarrow> string \<Rightarrow> string \<Rightarrow> result" where
  "deleteMessage e srv db requesterId messageId =
     (if db_throws e FindMessage then failed db (DbError FindMessage)
      else case Message_findById db messageId of
        None \<Rightarrow> failed db (new_AppError message_controller_imports ''Message not found'' 404)
      | Some m \<Rightarrow>
          if sender m \<noteq> requesterId
          then failed db (new_AppError message_controller_imports
                            ''You can only delete your own messages'' 403)
          else if db_throws e DeleteOne then failed db (DbError DeleteOne)
          else
            let recipientId = recipient m;
                recipientSocketId = map_get (onlineUsers srv) (Some recipientId)
            in \<lparr>store = Message_deleteOne db m,
                events = (if io_set e \<and> truthy recipientSocketId
                          then [(Room recipientSocketId, MessageDeleted messageId)] else []),
                emails = [], logs = [],
                outcome = Inr \<lparr>status = 200, text_of = ''Message deleted successfully'',
                               data = None\<rparr>\<rparr>)"

text \<open>markAsRead (REST): bulk read-flip, then a read receipt to the other participant.\<close>

definition markAsRead :: "env \<Rightarrow> server \<Rightarrow> message list \<Rightarrow> string \<Rightarrow> string \<Rightarrow> result" where
  "markAsRead e srv db readerId cid =
     (if db_throws e MarkRead then failed db (DbError MarkRead)
      else
        let (db', messageIds) = markConversationAsRead (now e) db cid readerId;
            otherUserId = otherUser cid (Some readerId);
            senderSocketId = map_get (onlineUsers srv) otherUserId
        in \<lparr>store = db',
            events = (if io_set e \<and> truthy senderSocketId
                      then [(Room senderSocketId, MessagesRead (Some readerId) cid (Some messageIds))]
                      else []),
            emails = [], logs = [],
            outcome = Inr \<lparr>status = 200, text_of = ''Messages marked as read successfully'',
                           data = None\<rparr>\<rparr>)"

section \<open>A concrete credential verifier\<close>

text \<open>
  A verifier for concrete runs: it refuses a missing or empty token and reads any other
  token as the \<^verbatim>\<open>userId\<close> of its payload.
\<close>

definition plain_verifier :: verifier where
  "plain_verifier token =
     (case token of
        None \<Rightarrow> None
      | Some t \<Rightarrow> if t = [] then None else Some \<lparr>d_userId = Some t, d_id = None, d__id = None\<rparr>)"

section \<open>Concrete requests\<close>

text \<open>Recognising the read-receipt event among the emitted ones.\<close>

fun is_messagesRead :: "payload \<Rightarrow> bool" where
  "is_messagesRead (MessagesRead _ _ _) = True"
| "is_messagesRead _ = False"

text \<open>
  An environment in which nothing fails, with accounts for \<open>u1\<close> and \<open>u2\<close>; the request
  body \<^verbatim>\<open>{recipient: 'u2', messageText: 'hi'}\<close>; and a stored message from \<open>u1\<close> to
  \<open>u2\<close> that has been read.
\<close>

definition env0 :: env where
  "env0 = \<lparr>io_set = True, now = 1000, fresh_id = ''m1'', db_throws = (\<lambda>_. False),
           users = (\<lambda>u. if u = ''u1''
                          then Some \<lparr>u_name = ''Ann'', u_email = Some ''ann@example.org''\<rparr>
                        else if u = ''u2''
                          then Some \<lparr>u_name = ''Bob'', u_email = Some ''bob@example.org''\<rparr>
                        else None),
           email_throws = False\<rparr>"

definition hi_body :: send_body where
  "hi_body = \<lparr>b_recipient = ''u2'', b_messageText = Some ''hi'', b_product = None,
              b_image = None, b_images = None\<rparr>"

definition read_msg :: message where
  "read_msg = \<lparr>msg_id = ''m0'', sender = ''u1'', recipient = ''u2'', messageText = Some ''hi'',
               product = None, image = None, images = [], isRead = True, readAt = Some 900,
               createdAt = 800\<rparr>"

section \<open>Traces of connection events\<close>

text \<open>
  Connect and disconnect events, the socket ids of the connection attempts of a trace, the
  identities its accepted attempts were bound to, and the socket id of the latest accepted
  connection of an identity. Socket ids are generated by socket.io and identities come from
  the account store; \<open>ids_apart\<close> says that no identity of the trace is spelled like one of
  its socket ids.
\<close>

fun is_presence_event :: "inbound \<Rightarrow> bool" where
  "is_presence_event (Connect _ _) = True"
| "is_presence_event (Disconnect _) = True"
| "is_presence_event _ = False"

fun connection_ids :: "inbound list \<Rightarrow> string list" where
  "connection_ids [] = []"
| "connection_ids (Connect sid _ # es) = sid # connection_ids es"
| "connection_ids (_ # es) = connection_ids es"

fun authenticated_ids :: "verifier \<Rightarrow> inbound list \<Rightarrow> jstr list" where
  "authenticated_ids v [] = []"
| "authenticated_ids v (Connect _ token # es) =
     (case auth_middleware v token of
        Inl _ \<Rightarrow> authenticated_ids v es
      | Inr u \<Rightarrow> u # authenticated_ids v es)"
| "authenticated_ids v (_ # es) = authenticated_ids v es"

definition ids_apart :: "verifier \<Rightarrow> inbound list \<Rightarrow> bool" where
  "ids_apart v es \<longleftrightarrow>
     (\<forall>u \<in> set (authenticated_ids v es). \<forall>sid \<in> set (connection_ids es). u \<noteq> Some sid)"

fun latest_connection :: "verifier \<Rightarrow> inbound list \<Rightarrow> jstr \<Rightarrow> string option" where
  "latest_connection v [] u = None"
| "latest_connection v (e # es) u =
     (case latest_connection v es u of
        Some h \<Rightarrow> Some h
      | None \<Rightarrow>
          (case e of
             Connect sid token \<Rightarrow> if auth_middleware v token = Inr u then Some sid else None
           | _ \<Rightarrow> None))"

section \<open>Evaluation rules\<close>

declare show_nat.simps [simp del]

lemmas socket_defs =
  plain_verifier_def connect_def auth_middleware_def js_or_def on_connection_def
  on_joinConversation_def on_leaveConversation_def on_disconnect_def on_markAsRead_def
  on_typing_def add_room_def del_room_def map_set_def map_delete_def map_get_def map_keys_def
  init_server_def isOnline_def focusOf_def receivers_def

lemmas rest_defs =
  sendMessage_def Message_create_def build_messageData_def Message_save_def
  notify_recipient_def sendNewMessageEmail_def sendEmail_def failed_def env0_def hi_body_def read_msg_def conversationId_def
  deleteMessage_def Message_findById_def Message_deleteOne_def new_AppError_def
  message_controller_imports_def markAsRead_def markConversationAsRead_def unread_for_def
  otherUser_def Let_def

section \<open>Conversation identifiers: symmetry and decoding\<close>

lemma split_at_no_separator: "c \<notin> set b \<Longrightarrow> split_at c b = [b]"
  by (induction b) auto

lemma split_at_joined:
  "c \<notin> set a \<Longrightarrow> c \<notin> set b \<Longrightarrow> split_at c (a @ c # b) = [a, b]"
  by (induction a) (auto simp: split_at_no_separator)

lemma otherUser_of_conversationId:
  "CHR ''_'' \<notin> set a \<Longrightarrow> CHR ''_'' \<notin> set b \<Longrightarrow>
   otherUser (conversationId a b) (Some b) = Some a"
  by (auto simp: conversationId_def otherUser_def split_at_joined)

text \<open>
  C1 (as stated, refuted for the read path). The read paths do not compute the identifier:
  the socket handler markAsRead and the REST markAsRead relay whatever the client sent.
  Reader \<open>u1\<close> sending \<open>u2_u1\<close> makes the server emit, on either path, a \<open>messagesRead\<close>
  event carrying \<open>u2_u1\<close>, which is not the identifier the send path computes for \<open>u1\<close>
  and \<open>u2\<close>.
\<close>

theorem read_path_relays_client_id_counterexample:
  "snd (on_markAsRead init_server \<lparr>userId = Some ''u1'', rooms = [Some ''s1'', Some ''u1'']\<rparr> ''u2_u1'')
     = [(Room (Some ''u2''), MessagesRead (Some ''u1'') ''u2_u1'' None)]
   \<and> events (markAsRead env0
                (run plain_verifier init_server
                   [Connect ''s1'' (Some ''u1''), Connect ''s2'' (Some ''u2'')])
                [] ''u1'' ''u2_u1'')
     = [(Room (Some ''s2''), MessagesRead (Some ''u1'') ''u2_u1'' (Some []))]
   \<and> conversationId ''u1'' ''u2'' = ''u1_u2''
   \<and> conversationId ''u1'' ''u2'' \<noteq> ''u2_u1''"
  by (simp add: socket_defs rest_defs)

text \<open>
  C1 (amended). The identifier is symmetric in the two identities, and the send path is the
  producer that computes it: every \<open>newMessage\<close> and \<open>messagesRead\<close> event of sendMessage
  carries \<open>conversationId senderId recipient\<close>. The read paths take the identifier from the
  client as it is and only split it at the separator. The socket handler markAsRead emits
  one \<open>messagesRead\<close> event carrying the client's identifier, to the room named by the
  participant the split yields. The REST markAsRead emits only \<open>messagesRead\<close> events
  carrying the client's identifier, to the connection registered for the participant the
  split yields, and exactly one such event when that participant is online. On an identifier
  the send path computed from identities that do not contain the separator, the split yields
  the participant that is not the reader, so the receipt goes to that participant.
\<close>

theorem conversationId_symmetric:
  "conversationId a b = conversationId b a
   \<and> (\<forall>ev \<in> set (events (sendMessage e srv db senderId body)).
         (\<forall>m c. snd ev = NewMessage m c \<longrightarrow> c = conversationId senderId (b_recipient body))
       \<and> (\<forall>rd c ids. snd ev = MessagesRead rd c ids \<longrightarrow>
             c = conversationId senderId (b_recipient body)))
   \<and> (CHR ''_'' \<notin> set a \<and> CHR ''_'' \<notin> set b \<longrightarrow>
        otherUser (conversationId a b) (Some b) = Some a)
   \<and> snd (on_markAsRead s k cid)
       = [(Room (otherUser cid (userId k)), MessagesRead (userId k) cid None)]
   \<and> (\<forall>ev \<in> set (events (markAsRead e srv db readerId cid)).
         fst ev = Room (map_get (onlineUsers srv) (otherUser cid (Some readerId)))
       \<and> (\<exists>ids. snd ev = MessagesRead (Some readerId) cid ids))
   \<and> (io_set e \<and> \<not> db_throws e MarkRead
        \<and> truthy (map_get (onlineUsers srv) (otherUser cid (Some readerId))) \<longrightarrow>
        events (markAsRead e srv db readerId cid)
          = [(Room (map_get (onlineUsers srv) (otherUser cid (Some readerId))),
              MessagesRead (Some readerId) cid
                (Some (snd (markConversationAsRead (now e) db cid readerId))))])
   \<and> (CHR ''_'' \<notin> set a \<and> CHR ''_'' \<notin> set b \<and> io_set e \<and> \<not> db_throws e MarkRead
        \<and> isOnline srv a \<longrightarrow>
        map fst (events (markAsRead e srv db b (conversationId a b)))
          = [Room (map_get (onlineUsers srv) (Some a))])"
proof -
  have 1: "conversationId a b = conversationId b a"
    by (auto simp: conversationId_def)
  have 2: "\<forall>ev \<in> set (events (sendMessage e srv db senderId body)).
         (\<forall>m c. snd ev = NewMessage m c \<longrightarrow> c = conversationId senderId (b_recipient body))
       \<and> (\<forall>rd c ids. snd ev = MessagesRead rd c ids \<longrightarrow>
             c = conversationId senderId (b_recipient body))"
    by (auto simp: sendMessage_def failed_def Let_def split: sum.splits prod.splits if_splits)
  have 3: "snd (on_markAsRead s k cid)
       = [(Room (otherUser cid (userId k)), MessagesRead (userId k) cid None)]"
    by (simp add: on_markAsRead_def)
  have 4: "\<forall>ev \<in> set (events (markAsRead e srv db readerId cid)).
         fst ev = Room (map_get (onlineUsers srv) (otherUser cid (Some readerId)))
       \<and> (\<exists>ids. snd ev = MessagesRead (Some readerId) cid ids)"
    by (auto simp: markAsRead_def failed_def Let_def split: prod.splits if_splits)
  have 5: "events (markAsRead e srv db readerId cid)
          = [(Room (map_get (onlineUsers srv) (otherUser cid (Some readerId))),
              MessagesRead (Some readerId) cid
                (Some (snd (markConversationAsRead (now e) db cid readerId))))]"
    if "io_set e \<and> \<not> db_throws e MarkRead
        \<and> truthy (map_get (onlineUsers srv) (otherUser cid (Some readerId)))"
    using that by (simp add: markAsRead_def Let_def split: prod.splits)
  have 6: "map fst (events (markAsRead e srv db b (conversationId a b)))
          = [Room (map_get (onlineUsers srv) (Some a))]"
    if "CHR ''_'' \<notin> set a \<and> CHR ''_'' \<notin> set b \<and> io_set e \<and> \<not> db_throws e MarkRead
        \<and> isOnline srv a"
    using that
    by (simp add: markAsRead_def Let_def otherUser_of_conversationId isOnline_def
          split: prod.splits)
  from 1 2 3 4 5 6 otherUser_of_conversationId [of a b] show ?thesis by blast
qed

theorem conversationId_symmetric_witness:
  "(let srv = run plain_verifier init_server
                [Connect ''s1'' (Some ''u1''), Connect ''s2'' (Some ''u2'')]
    in conversationId ''u1'' ''u2'' = conversationId ''u2'' ''u1''
       \<and> CHR ''_'' \<notin> set ''u1'' \<and> CHR ''_'' \<notin> set ''u2''
       \<and> io_set env0 \<and> \<not> db_throws env0 MarkRead \<and> isOnline srv ''u1''
       \<and> truthy (map_get (onlineUsers srv) (otherUser ''u2_u1'' (Some ''u1'')))
       \<and> otherUser (conversationId ''u1'' ''u2'') (Some ''u2'') = Some ''u1''
       \<and> map snd (events (sendMessage env0 srv [] ''u1'' hi_body))
           = [NewMessage (last (store (sendMessage env0 srv [] ''u1'' hi_body)))
                (conversationId ''u1'' ''u2'')]
       \<and> events (markAsRead env0 srv [] ''u1'' ''u2_u1'')
           = [(Room (Some ''s2''), MessagesRead (Some ''u1'') ''u2_u1'' (Some []))]
       \<and> map fst (events (markAsRead env0 srv [] ''u2'' (conversationId ''u1'' ''u2'')))
           = [Room (Some ''s1'')])"
  using conversationId_symmetric
          [of "''u1''" "''u2''" env0
              "run plain_verifier init_server
                 [Connect ''s1'' (Some ''u1''), Connect ''s2'' (Some ''u2'')]"
              "[]" "''u1''" hi_body init_server "\<lparr>userId = None, rooms = []\<rparr>" "''u2_u1''"
              "''u1''"]
  by (simp add: socket_defs rest_defs)

section \<open>Presence and focus\<close>

text \<open>
  C4 (as stated, refuted). Identity \<open>u1\<close> holds two connections \<open>s1\<close> and \<open>s2\<close> and views
  conversation \<open>u1_u2\<close>. Disconnecting \<open>s1\<close> alone removes the presence entry of \<open>u1\<close> and
  clears its focus, although \<open>s2\<close> is still connected.
\<close>

theorem partial_disconnect_counterexample:
  "(let s = run plain_verifier init_server
              [Connect ''s1'' (Some ''u1''), Connect ''s2'' (Some ''u1''),
               JoinConversation ''s2'' ''u1_u2''];
        s' = fst (step plain_verifier s (Disconnect ''s1''))
    in isOnline s ''u1'' \<and> focusOf s ''u1'' = Some ''u1_u2''
       \<and> map_get (sockets s') ''s2'' \<noteq> None
       \<and> \<not> isOnline s' ''u1'' \<and> focusOf s' ''u1'' = None)"
  by (simp add: socket_defs)

text \<open>
  C4 (amended). Disconnecting any connection of an identity removes that identity's presence
  entry and clears its focus, whether or not other connections of the identity remain.
\<close>

theorem disconnect_clears_presence_and_focus:
  assumes "map_get (sockets s) sid = Some k"
  shows "map_get (onlineUsers (fst (step verify s (Disconnect sid)))) (userId k) = None
       \<and> map_get (activeConversations (fst (step verify s (Disconnect sid)))) (userId k) = None"
  using assms
  by (simp add: on_disconnect_def map_get_def map_delete_def delete_conv' Let_def)

theorem disconnect_clears_presence_and_focus_witness:
  "(let s = run plain_verifier init_server
              [Connect ''s1'' (Some ''u1''), Connect ''s2'' (Some ''u1''),
               JoinConversation ''s2'' ''u1_u2''];
        k = \<lparr>userId = Some ''u1'', rooms = [Some ''s1'', Some ''u1'']\<rparr>
    in map_get (sockets s) ''s1'' = Some k
       \<and> map_get (sockets s) ''s2'' \<noteq> None
       \<and> map_get (onlineUsers (fst (step plain_verifier s (Disconnect ''s1'')))) (userId k) = None
       \<and> map_get (activeConversations (fst (step plain_verifier s (Disconnect ''s1'')))) (userId k)
           = None)"
proof -
  let ?s = "run plain_verifier init_server
              [Connect ''s1'' (Some ''u1''), Connect ''s2'' (Some ''u1''),
               JoinConversation ''s2'' ''u1_u2'']"
  let ?k = "\<lparr>userId = Some ''u1'', rooms = [Some ''s1'', Some ''u1'']\<rparr>"
  have h: "map_get (sockets ?s) ''s1'' = Some ?k"
    by (simp add: socket_defs)
  have other: "map_get (sockets ?s) ''s2'' \<noteq> None"
    by (simp add: socket_defs)
  from disconnect_clears_presence_and_focus [OF h, of plain_verifier] h other
  show ?thesis by (simp add: Let_def)
qed

text \<open>
  C5 (as stated, refuted). Identity \<open>u1\<close> has moved from conversation \<open>u1_u2\<close> to \<open>u1_u3\<close>;
  the stale leave event for \<open>u1_u2\<close> clears the focus on \<open>u1_u3\<close>.
\<close>

theorem stale_leave_counterexample:
  "focusOf (run plain_verifier init_server
              [Connect ''s1'' (Some ''u1''), JoinConversation ''s1'' ''u1_u2'',
               JoinConversation ''s1'' ''u1_u3'']) ''u1'' = Some ''u1_u3''
   \<and> focusOf (run plain_verifier init_server
              [Connect ''s1'' (Some ''u1''), JoinConversation ''s1'' ''u1_u2'',
               JoinConversation ''s1'' ''u1_u3'', LeaveConversation ''s1'' ''u1_u2'']) ''u1'' = None"
  by (simp add: socket_defs)

text \<open>
  C5 (amended). A leave-conversation event clears the focus of the identity bound to the
  socket, whatever conversation id the event carries and whatever the current focus is.
\<close>

theorem leave_always_clears_focus:
  "map_get (activeConversations (fst (on_leaveConversation s sid k cid))) (userId k) = None"
  by (simp add: on_leaveConversation_def map_get_def map_delete_def delete_conv')

text \<open>
  C9. A connection attempt whose credential fails verification (the verifier throws: missing
  token, invalid signature, expired) is refused with the server state as it was: no presence
  entry, no focus entry, and no event, so no \<open>onlineUsers\<close> broadcast.
\<close>

theorem failed_authentication_mutates_nothing:
  assumes "verify token = None"
  shows "connect verify s sid token = (s, [], Some (Error ''Authentication error''))
       \<and> step verify s (Connect sid token) = (s, [])"
  using assms by (simp add: connect_def auth_middleware_def)

theorem failed_authentication_mutates_nothing_witness:
  "plain_verifier None = None
   \<and> connect plain_verifier init_server ''s1'' None
       = (init_server, [], Some (Error ''Authentication error''))
   \<and> step plain_verifier init_server (Connect ''s1'' None) = (init_server, [])"
proof -
  have h: "plain_verifier None = None" by (simp add: plain_verifier_def)
  from failed_authentication_mutates_nothing [of plain_verifier None init_server "''s1''"] h
  show ?thesis by blast
qed

section \<open>The send path\<close>

lemma Message_save_snoc:
  "Message_save (db @ [m0]) m = Message_save db m @ [if msg_id m0 = msg_id m then m else m0]"
  by (simp add: Message_save_def)

text \<open>
  C2 (as stated, refuted). The read receipt of the send path is emitted inside the branch
  that requires the recipient's presence entry. Identity \<open>u2\<close> opens two connections, closes
  the first (which removes its presence entry) and joins conversation \<open>u1_u2\<close> on the second;
  \<open>u1\<close> is online. A message from \<open>u1\<close> to \<open>u2\<close> is stored as read, and no \<open>messagesRead\<close>
  event (no event at all) is emitted.
\<close>

theorem send_receipt_needs_recipient_presence_counterexample:
  "(let srv = run plain_verifier init_server
                [Connect ''s1'' (Some ''u2''), Connect ''s2'' (Some ''u2''), Disconnect ''s1'',
                 JoinConversation ''s2'' ''u1_u2'', Connect ''s3'' (Some ''u1'')];
        r = sendMessage env0 srv [] ''u1'' hi_body
    in focusOf srv ''u2'' = Some (conversationId ''u1'' ''u2'')
       \<and> isOnline srv ''u1''
       \<and> map isRead (store r) = [True]
       \<and> events r = [])"
  by (simp add: socket_defs rest_defs)

text \<open>
  C2 (amended). When the recipient's focus is the conversation of sender and recipient at the
  moment of the send (and the store accepts the writes), the created message is persisted
  with \<open>isRead = true\<close> and \<open>readAt\<close> set. A \<open>messagesRead\<close> event naming the recipient as
  reader and carrying the message id is sent to the sender's registered connection when both
  the sender and the recipient have a presence entry (and the socket server is registered with
  the app); when the recipient has no presence entry the send path emits nothing, whether or
  not the sender is online.
\<close>

theorem send_to_focused_recipient:
  assumes "focusOf srv (b_recipient body) = Some (conversationId senderId (b_recipient body))"
    and "\<not> db_throws e Create" and "\<not> db_throws e Populate" and "\<not> db_throws e Save"
  shows "(let r = sendMessage e srv db senderId body;
              m = last (store r);
              cid = conversationId senderId (b_recipient body)
          in (\<exists>resp. outcome r = Inr resp \<and> status resp = 201 \<and> data resp = Some m)
             \<and> msg_id m = fresh_id e \<and> isRead m \<and> readAt m = Some (now e)
             \<and> (io_set e \<and> isOnline srv senderId \<and> isOnline srv (b_recipient body) \<longrightarrow>
                  (Room (map_get (onlineUsers srv) (Some senderId)),
                   MessagesRead (Some (b_recipient body)) cid (Some [msg_id m])) \<in> set (events r))
             \<and> (\<not> isOnline srv (b_recipient body) \<longrightarrow> events r = []))"
  using assms
  by (simp add: sendMessage_def Message_create_def Let_def focusOf_def isOnline_def
        Message_save_snoc)

theorem send_to_focused_recipient_witness:
  "(let srv = run plain_verifier init_server
                [Connect ''s2'' (Some ''u2''), JoinConversation ''s2'' ''u1_u2'',
                 Connect ''s1'' (Some ''u1'')];
        r = sendMessage env0 srv [] ''u1'' hi_body
    in focusOf srv (b_recipient hi_body) = Some (conversationId ''u1'' (b_recipient hi_body))
       \<and> \<not> db_throws env0 Create \<and> \<not> db_throws env0 Populate \<and> \<not> db_throws env0 Save
       \<and> io_set env0 \<and> isOnline srv ''u1'' \<and> isOnline srv (b_recipient hi_body)
       \<and> map isRead (store r) = [True] \<and> map readAt (store r) = [Some 1000]
       \<and> (Room (Some ''s1''), MessagesRead (Some ''u2'') ''u1_u2'' (Some [''m1'']))
            \<in> set (events r))"
proof -
  let ?srv = "run plain_verifier init_server
                [Connect ''s2'' (Some ''u2''), JoinConversation ''s2'' ''u1_u2'',
                 Connect ''s1'' (Some ''u1'')]"
  have h1: "focusOf ?srv (b_recipient hi_body) = Some (conversationId ''u1'' (b_recipient hi_body))"
    by (simp add: socket_defs rest_defs)
  have h2: "\<not> db_throws env0 Create" and h3: "\<not> db_throws env0 Populate"
    and h4: "\<not> db_throws env0 Save"
    by (simp_all add: env0_def)
  from send_to_focused_recipient [OF h1 h2 h3 h4, of "[]"]
  show ?thesis by (simp add: socket_defs rest_defs)
qed



text \<open>
  C8. Once the message is persisted (the store accepted every write of the send), a failure
  in the notification block, be it the account lookup or the mail transport, changes neither
  the stored messages nor the events nor the outcome: the send answers 201 with the message,
  exactly as it does when the notification goes through.
\<close>

theorem notification_failure_is_swallowed:
  assumes "\<not> db_throws e Create" and "\<not> db_throws e Populate" and "\<not> db_throws e Save"
  shows "(let r = sendMessage e srv db senderId body;
              r_ok = sendMessage (e\<lparr>email_throws := False,
                                     db_throws := (db_throws e)(FindUser := False)\<rparr>)
                       srv db senderId body
          in (\<exists>resp. outcome r = Inr resp \<and> status resp = 201
                      \<and> data resp = Some (last (store r)))
             \<and> msg_id (last (store r)) = fresh_id e
             \<and> store r = store r_ok \<and> events r = events r_ok \<and> outcome r = outcome r_ok)"
  using assms
  by (simp add: sendMessage_def Message_create_def Let_def Message_save_snoc)

theorem notification_failure_is_swallowed_witness:
  "(let e = env0\<lparr>email_throws := True\<rparr>;
        r = sendMessage e init_server [] ''u1'' hi_body
    in \<not> db_throws e Create \<and> \<not> db_throws e Populate \<and> \<not> db_throws e Save
       \<and> snd (notify_recipient e (last (store r)) ''u2'' ''u1'' (Some ''hi'')) = Inl EmailError
       \<and> logs r = [''Error sending email:'', ''Failed to send message notification email:'']
       \<and> emails r = []
       \<and> map msg_id (store r) = [''m1'']
       \<and> (\<exists>resp. outcome r = Inr resp \<and> status resp = 201))"
proof -
  let ?e = "env0\<lparr>email_throws := True\<rparr>"
  have h2: "\<not> db_throws ?e Create" and h3: "\<not> db_throws ?e Populate"
    and h4: "\<not> db_throws ?e Save"
    by (simp_all add: env0_def)
  from notification_failure_is_swallowed [OF h2 h3 h4, of init_server "[]" "''u1''" hi_body]
  show ?thesis by (simp add: socket_defs rest_defs)
qed

section \<open>Deleting and marking as read\<close>

lemma findById_msg_id: "Message_findById db i = Some m \<Longrightarrow> msg_id m = i"
  by (auto simp: Message_findById_def find_Some_iff)

lemma find_filter_out: "find (\<lambda>m. msg_id m = i) (filter (\<lambda>x. msg_id x \<noteq> i) db) = None"
  by (simp add: find_None_iff)

text \<open>
  What holds of deleteMessage whatever the error value: a request for a missing message or by
  a non-sender fails and leaves the store and the sockets untouched; a request by the sender
  removes the document and tells the recipient's registered connection.
\<close>

lemma deleteMessage_refused:
  assumes "Message_findById db messageId = None
         \<or> (\<exists>m. Message_findById db messageId = Some m \<and> sender m \<noteq> requesterId)"
  shows "store (deleteMessage e srv db requesterId messageId) = db
       \<and> events (deleteMessage e srv db requesterId messageId) = []
       \<and> (\<exists>err. outcome (deleteMessage e srv db requesterId messageId) = Inl err)"
  using assms by (auto simp: deleteMessage_def failed_def)

lemma deleteMessage_by_sender:
  assumes "Message_findById db messageId = Some m" and "sender m = requesterId"
    and "\<not> db_throws e FindMessage" and "\<not> db_throws e DeleteOne"
  shows "(let r = deleteMessage e srv db requesterId messageId
          in Message_findById (store r) messageId = None
             \<and> store r = filter (\<lambda>x. msg_id x \<noteq> messageId) db
             \<and> (\<exists>resp. outcome r = Inr resp \<and> status resp = 200)
             \<and> events r = (if io_set e \<and> isOnline srv (recipient m)
                            then [(Room (map_get (onlineUsers srv) (Some (recipient m))),
                                   MessageDeleted messageId)]
                            else []))"
  using assms findById_msg_id [OF assms(1)]
  by (simp add: deleteMessage_def Let_def isOnline_def Message_deleteOne_def find_filter_out
        Message_findById_def)

text \<open>
  C7 (the code at the failing inputs). The message controller never imports AppError, so both
  \<^verbatim>\<open>throw new AppError(...)\<close> statements raise a ReferenceError: deleting a missing message
  (\<open>m9\<close>) does not fail with the not-found error (404), and deleting \<open>m0\<close>, sent by \<open>u1\<close>,
  as \<open>u2\<close> does not fail with the authorization error (403). With AppError in scope the same
  statements would build those two errors.
\<close>

theorem deleteMessage_raises_ReferenceError:
  "outcome (deleteMessage env0 init_server [read_msg] ''u1'' ''m9'')
     = Inl (ReferenceError ''AppError is not defined'')
   \<and> outcome (deleteMessage env0 init_server [read_msg] ''u2'' ''m0'')
     = Inl (ReferenceError ''AppError is not defined'')
   \<and> new_AppError (''AppError'' # message_controller_imports) ''Message not found'' 404
     = AppError ''Message not found'' 404
   \<and> new_AppError (''AppError'' # message_controller_imports)
        ''You can only delete your own messages'' 403
     = AppError ''You can only delete your own messages'' 403"
  by (simp add: rest_defs)

lemma markConversationAsRead_nothing_unread:
  "\<forall>m \<in> set db. \<not> unread_for cid rd m \<Longrightarrow> markConversationAsRead t db cid rd = (db, [])"
  by (simp add: markConversationAsRead_def map_idI filter_False)

lemma unread_for_flipped: "\<not> unread_for cid rd (m\<lparr>isRead := True, readAt := x\<rparr>)"
  by (simp add: unread_for_def)

lemma markConversationAsRead_leaves_none_unread:
  "\<forall>m \<in> set (fst (markConversationAsRead t db cid rd)). \<not> unread_for cid rd m"
  by (auto simp: markConversationAsRead_def unread_for_flipped)

text \<open>
  C6 (as stated, refuted). The only message of conversation \<open>u1_u2\<close> addressed to \<open>u2\<close> is
  already read and \<open>u1\<close> is online. Marking the conversation read as \<open>u2\<close> changes nothing in
  the store, yet a \<open>messagesRead\<close> event with an empty id list is sent to \<open>u1\<close>.
\<close>

theorem empty_read_receipt_counterexample:
  "(let srv = run plain_verifier init_server [Connect ''s1'' (Some ''u1'')];
        r = markAsRead env0 srv [read_msg] ''u2'' ''u1_u2''
    in isOnline srv ''u1''
       \<and> \<not> unread_for ''u1_u2'' ''u2'' read_msg
       \<and> store r = [read_msg]
       \<and> events r = [(Room (Some ''s1''), MessagesRead (Some ''u2'') ''u1_u2'' (Some []))])"
  by (simp add: socket_defs rest_defs)

text \<open>
  C6 (amended). Marking a conversation read when it holds no unread message addressed to the
  reader performs no durable write and yields an empty affected-id list (so a second call
  right after a first one does), and the operation succeeds; but the empty list does not
  suppress delivery: a \<open>messagesRead\<close> event with an empty id list is still sent whenever the
  other participant has a presence entry (and the socket server is registered with the app).
\<close>

theorem markAsRead_nothing_unread:
  assumes "\<forall>m \<in> set db. \<not> unread_for cid readerId m" and "\<not> db_throws e MarkRead"
  shows "(let r = markAsRead e srv db readerId cid;
              senderSocketId = map_get (onlineUsers srv) (otherUser cid (Some readerId))
          in markConversationAsRead (now e) db cid readerId = (db, [])
             \<and> markConversationAsRead t' (fst (markConversationAsRead t db' cid readerId)) cid readerId
                 = (fst (markConversationAsRead t db' cid readerId), [])
             \<and> store r = db
             \<and> (\<exists>resp. outcome r = Inr resp \<and> status resp = 200)
             \<and> events r = (if io_set e \<and> truthy senderSocketId
                            then [(Room senderSocketId,
                                   MessagesRead (Some readerId) cid (Some []))]
                            else []))"
  using assms markConversationAsRead_leaves_none_unread [of t db' cid readerId]
  by (simp add: markAsRead_def markConversationAsRead_nothing_unread Let_def)

theorem markAsRead_nothing_unread_witness:
  "(let srv = run plain_verifier init_server [Connect ''s1'' (Some ''u1'')];
        r = markAsRead env0 srv [read_msg] ''u2'' ''u1_u2''
    in (\<forall>m \<in> set [read_msg]. \<not> unread_for ''u1_u2'' ''u2'' m) \<and> \<not> db_throws env0 MarkRead
       \<and> truthy (map_get (onlineUsers srv) (otherUser ''u1_u2'' (Some ''u2'')))
       \<and> store r = [read_msg]
       \<and> events r = [(Room (Some ''s1''), MessagesRead (Some ''u2'') ''u1_u2'' (Some []))])"
proof -
  have h1: "\<forall>m \<in> set [read_msg]. \<not> unread_for ''u1_u2'' ''u2'' m"
    by (simp add: rest_defs)
  have h2: "\<not> db_throws env0 MarkRead"
    by (simp add: env0_def)
  from markAsRead_nothing_unread
         [OF h1 h2, of "run plain_verifier init_server [Connect ''s1'' (Some ''u1'')]"
            0 0 "[]"]
  show ?thesis by (simp add: socket_defs rest_defs)
qed

section \<open>The presence registry along a trace\<close>

lemma run_snoc: "run v s (es @ [e]) = fst (step v (run v s es) e)"
  by (induction es arbitrary: s) auto

lemma latest_connection_snoc:
  "latest_connection v (es @ [e]) u =
     (case e of
        Connect sid token \<Rightarrow> if auth_middleware v token = Inr u then Some sid
                              else latest_connection v es u
      | _ \<Rightarrow> latest_connection v es u)"
  by (induction es) (auto split: option.splits inbound.splits)

lemma connection_ids_snoc:
  "set (connection_ids (es @ [e])) = set (connection_ids es) \<union> (case e of Connect sid _ \<Rightarrow> {sid} | _ \<Rightarrow> {})"
  by (induction es rule: connection_ids.induct) (auto split: inbound.splits)

lemma authenticated_ids_snoc:
  "set (authenticated_ids v (es @ [e])) = set (authenticated_ids v es) \<union>
     (case e of Connect _ token \<Rightarrow> (case auth_middleware v token of Inl _ \<Rightarrow> {} | Inr u \<Rightarrow> {u}) | _ \<Rightarrow> {})"
  by (induction v es rule: authenticated_ids.induct) (auto split: inbound.splits sum.splits)

lemma onlineUsers_step:
  "onlineUsers (fst (step v s e)) =
    (case e of
       Connect sid token \<Rightarrow> (case auth_middleware v token of Inl _ \<Rightarrow> onlineUsers s
                              | Inr u \<Rightarrow> AList.update u sid (onlineUsers s))
     | Disconnect sid \<Rightarrow> (case map_of (sockets s) sid of None \<Rightarrow> onlineUsers s
                            | Some k \<Rightarrow> AList.delete (userId k) (onlineUsers s))
     | _ \<Rightarrow> onlineUsers s)"
  by (cases e) (auto simp: connect_def on_connection_def on_disconnect_def on_joinConversation_def
      on_leaveConversation_def on_typing_def on_markAsRead_def map_set_def map_delete_def map_get_def Let_def
      split: sum.splits option.splits)

lemma distinct_onlineUsers: "distinct (map fst (onlineUsers (run v init_server es)))"
proof (induction es rule: rev_induct)
  case Nil
  then show ?case by (simp add: init_server_def)
next
  case (snoc e es)
  then show ?case
    by (simp add: run_snoc onlineUsers_step distinct_update distinct_delete
          split: inbound.splits sum.splits option.splits)
qed

lemma stored_handle_is_latest:
  "map_of (onlineUsers (run v init_server es)) u = Some h \<Longrightarrow> latest_connection v es u = Some h"
proof (induction es arbitrary: h rule: rev_induct)
  case Nil
  then show ?case by (simp add: init_server_def)
next
  case (snoc e es)
  then show ?case
    by (auto simp add: run_snoc onlineUsers_step latest_connection_snoc update_conv' delete_conv'
          split: inbound.splits sum.splits option.splits if_splits)
qed

lemma set_update_cases: "p \<in> set (AList.update k v al) \<Longrightarrow> p = (k, v) \<or> p \<in> set al"
  by (induction al) (auto split: if_splits)

lemma set_delete_subset: "p \<in> set (AList.delete k al) \<Longrightarrow> p \<in> set al"
  by (simp add: AList.delete_eq)

lemma sockets_step:
  "sockets (fst (step v s e)) =
    (case e of
       Connect sid token \<Rightarrow>
         (case auth_middleware v token of
            Inl _ \<Rightarrow> sockets s
          | Inr u \<Rightarrow> AList.update sid (add_room u \<lparr>userId = u, rooms = [Some sid]\<rparr>) (sockets s))
     | JoinConversation sid cid \<Rightarrow>
         (case map_of (sockets s) sid of None \<Rightarrow> sockets s
          | Some k \<Rightarrow> AList.update sid (add_room (Some cid) k) (sockets s))
     | LeaveConversation sid cid \<Rightarrow>
         (case map_of (sockets s) sid of None \<Rightarrow> sockets s
          | Some k \<Rightarrow> AList.update sid (del_room (Some cid) k) (sockets s))
     | Disconnect sid \<Rightarrow>
         (case map_of (sockets s) sid of None \<Rightarrow> sockets s
          | Some k \<Rightarrow> AList.delete sid (sockets s))
     | _ \<Rightarrow> sockets s)"
  by (cases e) (auto simp: connect_def on_connection_def on_disconnect_def on_joinConversation_def
      on_leaveConversation_def on_typing_def on_markAsRead_def map_set_def map_delete_def map_get_def Let_def
      split: sum.splits option.splits)

lemma stored_handle_is_connection_id:
  "(u, h) \<in> set (onlineUsers (run v init_server es)) \<Longrightarrow> h \<in> set (connection_ids es)"
proof (induction es rule: rev_induct)
  case Nil
  then show ?case by (simp add: init_server_def)
next
  case (snoc e es)
  then show ?case
    by (auto simp add: run_snoc onlineUsers_step connection_ids_snoc
          dest: set_update_cases set_delete_subset
          split: inbound.splits sum.splits option.splits)
qed

lemma distinct_sockets: "distinct (map fst (sockets (run v init_server es)))"
proof (induction es rule: rev_induct)
  case Nil
  then show ?case by (simp add: init_server_def)
next
  case (snoc e es)
  then show ?case
    by (simp add: run_snoc sockets_step distinct_update distinct_delete
          split: inbound.splits sum.splits option.splits)
qed

lemma rooms_after_presence_events:
  assumes "\<forall>e \<in> set es. is_presence_event e"
    and "(sid, k) \<in> set (sockets (run v init_server es))"
  shows "set (rooms k) \<subseteq> {Some sid, userId k} \<and> userId k \<in> set (authenticated_ids v es)"
  using assms
proof (induction es arbitrary: sid k rule: rev_induct)
  case Nil
  then show ?case by (simp add: init_server_def)
next
  case (snoc e es)
  let ?s = "run v init_server es"
  have pe: "\<forall>e \<in> set es. is_presence_event e" using snoc.prems(1) by simp
  note IH = snoc.IH [OF pe]
  have mem: "(sid, k) \<in> set (sockets (fst (step v ?s e)))"
    using snoc.prems(2) by (simp only: run_snoc)
  show ?case
  proof (cases e)
    case (Connect sid' token)
    show ?thesis
    proof (cases "auth_middleware v token")
      case (Inl err)
      with Connect mem have "(sid, k) \<in> set (sockets ?s)"
        by (simp add: sockets_step del: step.simps)
      with IH Connect Inl show ?thesis
        by (simp add: authenticated_ids_snoc)
    next
      case (Inr u)
      with Connect mem
      have "(sid, k) = (sid', add_room u \<lparr>userId = u, rooms = [Some sid']\<rparr>)
            \<or> (sid, k) \<in> set (sockets ?s)"
        by (auto simp add: sockets_step simp del: step.simps dest: set_update_cases)
      then show ?thesis
      proof
        assume "(sid, k) = (sid', add_room u \<lparr>userId = u, rooms = [Some sid']\<rparr>)"
        with Connect Inr show ?thesis
          by (auto simp add: add_room_def authenticated_ids_snoc)
      next
        assume "(sid, k) \<in> set (sockets ?s)"
        with IH Connect Inr show ?thesis
          by (simp add: authenticated_ids_snoc)
      qed
    qed
  next
    case (Disconnect sid')
    with mem have "(sid, k) \<in> set (sockets ?s)"
      by (auto simp add: sockets_step simp del: step.simps dest: set_delete_subset
            split: option.splits)
    with IH Disconnect show ?thesis
      by (simp add: authenticated_ids_snoc)
  qed (use snoc.prems(1) in auto)
qed

lemma ids_apart_uses:
  "ids_apart v es \<Longrightarrow> u \<in> set (authenticated_ids v es) \<Longrightarrow> h \<in> set (connection_ids es) \<Longrightarrow> u \<noteq> Some h"
  by (auto simp: ids_apart_def)

lemma distinct_singleton_set: "distinct xs \<Longrightarrow> set xs \<subseteq> {h} \<Longrightarrow> length xs \<le> 1"
  by (cases xs; cases "tl xs") auto

lemma receivers_of_stored_handle:
  assumes "\<forall>e \<in> set es. is_presence_event e" and "ids_apart v es"
    and "map_of (onlineUsers (run v init_server es)) u = Some h"
  shows "set (receivers (run v init_server es) (Some h)) \<subseteq> {h}
       \<and> length (receivers (run v init_server es) (Some h)) \<le> 1"
proof -
  let ?s = "run v init_server es"
  have hid: "h \<in> set (connection_ids es)"
    using assms(3) stored_handle_is_connection_id [of u h v es] by (auto dest: map_of_SomeD)
  have sub: "set (receivers ?s (Some h)) \<subseteq> {h}"
  proof
    fix sid assume "sid \<in> set (receivers ?s (Some h))"
    then obtain k where k: "(sid, k) \<in> set (sockets ?s)" and r: "Some h \<in> set (rooms k)"
      by (auto simp: receivers_def)
    from rooms_after_presence_events [OF assms(1) k]
    have "set (rooms k) \<subseteq> {Some sid, userId k}" and "userId k \<in> set (authenticated_ids v es)"
      by simp_all
    moreover from r \<open>set (rooms k) \<subseteq> {Some sid, userId k}\<close>
    have "Some h = Some sid \<or> Some h = userId k" by auto
    ultimately show "sid \<in> {h}"
      using ids_apart_uses [OF assms(2) _ hid, of "userId k"] by auto
  qed
  have "distinct (receivers ?s (Some h))"
    unfolding receivers_def using distinct_sockets [of v es] by (rule distinct_map_filter)
  from distinct_singleton_set [OF this sub] sub show ?thesis by simp
qed

lemma truthy_Some: "truthy x \<Longrightarrow> \<exists>h. x = Some h"
  by (cases x) auto

lemma sendMessage_addressee:
  assumes "(t, p) \<in> set (events (sendMessage e srv db senderId body))"
  shows "\<exists>h. t = Room (Some h)
           \<and> map_get (onlineUsers srv)
                (Some (if is_messagesRead p then senderId else b_recipient body)) = Some h"
  using assms
  by (auto simp: sendMessage_def failed_def Let_def
        split: sum.splits prod.splits if_splits) (blast dest: truthy_Some)+

lemma deleteMessage_addressee:
  assumes "(t, p) \<in> set (events (deleteMessage e srv db requesterId messageId))"
  shows "\<exists>h m. Message_findById db messageId = Some m \<and> p = MessageDeleted messageId
             \<and> t = Room (Some h)
             \<and> map_get (onlineUsers srv) (Some (recipient m)) = Some h"
  using assms
  by (auto simp: deleteMessage_def failed_def Let_def
        split: option.splits if_splits) (blast dest: truthy_Some)+

lemma markAsRead_addressee:
  assumes "(t, p) \<in> set (events (markAsRead e srv db readerId cid))"
  shows "\<exists>h. t = Room (Some h)
           \<and> map_get (onlineUsers srv) (otherUser cid (Some readerId)) = Some h"
  using assms
  by (auto simp: markAsRead_def failed_def Let_def
        split: prod.splits if_splits) (blast dest: truthy_Some)+

lemma receivers_members:
  assumes "\<forall>ev \<in> set es. is_presence_event ev"
    and "sid \<in> set (receivers (run v init_server es) r)"
  shows "r = Some sid
       \<or> (\<exists>k. map_get (sockets (run v init_server es)) sid = Some k \<and> userId k = r)"
proof -
  let ?s = "run v init_server es"
  from assms(2) obtain k where k: "(sid, k) \<in> set (sockets ?s)" and r: "r \<in> set (rooms k)"
    by (auto simp: receivers_def)
  from rooms_after_presence_events [OF assms(1) k] r have "r = Some sid \<or> r = userId k"
    by auto
  moreover from k distinct_sockets [of v es] have "map_get (sockets ?s) sid = Some k"
    by (simp add: map_get_def)
  ultimately show ?thesis by blast
qed

lemma stored_handle_delivery:
  assumes "\<forall>ev \<in> set es. is_presence_event ev"
    and "map_get (onlineUsers (run v init_server es)) u = Some h"
  shows "latest_connection v es u = Some h
       \<and> (ids_apart v es \<longrightarrow>
            set (receivers (run v init_server es) (Some h)) \<subseteq> {h}
            \<and> length (receivers (run v init_server es) (Some h)) \<le> 1)"
proof -
  from assms(2) have g: "map_of (onlineUsers (run v init_server es)) u = Some h"
    by (simp add: map_get_def)
  from stored_handle_is_latest [OF g] receivers_of_stored_handle [OF assms(1) _ g]
  show ?thesis by blast
qed

text \<open>
  C10. After any sequence of connect and disconnect events, the presence registry holds at
  most one handle per identity; a new connection overwrites the handle stored for its
  identity; and a stored handle is the socket id of the latest accepted connection of that
  identity. Every event the REST paths emit goes to the room named by the handle stored for
  the identity it addresses, so by the socket id of that identity's latest accepted
  connection: \<open>newMessage\<close> for the recipient and \<open>messagesRead\<close> for the sender in
  sendMessage, \<open>messageDeleted\<close> for the recipient of the deleted message in deleteMessage,
  \<open>messagesRead\<close> for the other participant in markAsRead. The members of a room are the
  socket whose id names it and the sockets bound to an identity spelled like it (a socket
  joins the room named by its identity); so at most one connection, the one with that socket
  id, receives such an event as long as no identity is spelled like a socket id.
\<close>

theorem presence_registry_single_handle:
  assumes "\<forall>ev \<in> set es. is_presence_event ev"
  shows "(let s = run v init_server es
          in distinct (map_keys (onlineUsers s))
             \<and> map_get (onlineUsers (fst (on_connection s sid uid))) uid = Some sid
             \<and> (\<forall>u h. map_get (onlineUsers s) u = Some h \<longrightarrow> latest_connection v es u = Some h)
             \<and> (\<forall>r c. c \<in> set (receivers s r) \<longrightarrow>
                  r = Some c \<or> (\<exists>k. map_get (sockets s) c = Some k \<and> userId k = r))
             \<and> (\<forall>t p. (t, p) \<in> set (events (sendMessage e s db senderId body)) \<longrightarrow>
                  (\<exists>h. t = Room (Some h)
                      \<and> latest_connection v es
                           (Some (if is_messagesRead p then senderId else b_recipient body)) = Some h
                      \<and> (ids_apart v es \<longrightarrow> set (receivers s (Some h)) \<subseteq> {h}
                                              \<and> length (receivers s (Some h)) \<le> 1)))
             \<and> (\<forall>t p. (t, p) \<in> set (events (deleteMessage e s db requesterId messageId)) \<longrightarrow>
                  (\<exists>h m. Message_findById db messageId = Some m \<and> p = MessageDeleted messageId
                      \<and> t = Room (Some h)
                      \<and> latest_connection v es (Some (recipient m)) = Some h
                      \<and> (ids_apart v es \<longrightarrow> set (receivers s (Some h)) \<subseteq> {h}
                                              \<and> length (receivers s (Some h)) \<le> 1)))
             \<and> (\<forall>t p. (t, p) \<in> set (events (markAsRead e s db readerId cid)) \<longrightarrow>
                  (\<exists>h. t = Room (Some h)
                      \<and> latest_connection v es (otherUser cid (Some readerId)) = Some h
                      \<and> (ids_apart v es \<longrightarrow> set (receivers s (Some h)) \<subseteq> {h}
                                              \<and> length (receivers s (Some h)) \<le> 1))))"
proof -
  let ?s = "run v init_server es"
  note D = stored_handle_delivery [OF assms]
  have a: "distinct (map_keys (onlineUsers ?s))"
    by (simp add: map_keys_def distinct_onlineUsers)
  have b: "map_get (onlineUsers (fst (on_connection ?s sid uid))) uid = Some sid"
    by (simp add: on_connection_def map_get_def map_set_def update_conv' Let_def)
  have c: "\<forall>u h. map_get (onlineUsers ?s) u = Some h \<longrightarrow> latest_connection v es u = Some h"
    by (simp add: map_get_def stored_handle_is_latest)
  have d: "\<exists>h. t = Room (Some h)
               \<and> latest_connection v es
                    (Some (if is_messagesRead p then senderId else b_recipient body)) = Some h
               \<and> (ids_apart v es \<longrightarrow> set (receivers ?s (Some h)) \<subseteq> {h}
                                       \<and> length (receivers ?s (Some h)) \<le> 1)"
    if "(t, p) \<in> set (events (sendMessage e ?s db senderId body))" for t p
  proof -
    from sendMessage_addressee [OF that] obtain h where "t = Room (Some h)"
      and "map_get (onlineUsers ?s)
             (Some (if is_messagesRead p then senderId else b_recipient body)) = Some h"
      by blast
    with D show ?thesis by blast
  qed
  have f: "\<exists>h m. Message_findById db messageId = Some m \<and> p = MessageDeleted messageId
               \<and> t = Room (Some h)
               \<and> latest_connection v es (Some (recipient m)) = Some h
               \<and> (ids_apart v es \<longrightarrow> set (receivers ?s (Some h)) \<subseteq> {h}
                                       \<and> length (receivers ?s (Some h)) \<le> 1)"
    if "(t, p) \<in> set (events (deleteMessage e ?s db requesterId messageId))" for t p
  proof -
    from deleteMessage_addressee [OF that] obtain h m
      where "Message_findById db messageId = Some m" and "p = MessageDeleted messageId"
        and "t = Room (Some h)"
        and "map_get (onlineUsers ?s) (Some (recipient m)) = Some h"
      by blast
    with D show ?thesis by blast
  qed
  have g: "\<exists>h. t = Room (Some h)
               \<and> latest_connection v es (otherUser cid (Some readerId)) = Some h
               \<and> (ids_apart v es \<longrightarrow> set (receivers ?s (Some h)) \<subseteq> {h}
                                       \<and> length (receivers ?s (Some h)) \<le> 1)"
    if "(t, p) \<in> set (events (markAsRead e ?s db readerId cid))" for t p
  proof -
    from markAsRead_addressee [OF that] obtain h where "t = Room (Some h)"
      and "map_get (onlineUsers ?s) (otherUser cid (Some readerId)) = Some h"
      by blast
    with D show ?thesis by blast
  qed
  have m: "\<forall>r c. c \<in> set (receivers ?s r) \<longrightarrow>
             r = Some c \<or> (\<exists>k. map_get (sockets ?s) c = Some k \<and> userId k = r)"
    using receivers_members [OF assms] by blast
  from a b c m d f g show ?thesis unfolding Let_def by blast
qed

theorem presence_registry_single_handle_witness:
  "(let es = [Connect ''s0'' (Some ''u3''), Disconnect ''s0'', Connect ''s1'' (Some ''u2''),
              Connect ''s2'' (Some ''u2''), Connect ''s3'' (Some ''u1'')];
        s = run plain_verifier init_server es
    in (\<forall>ev \<in> set es. is_presence_event ev) \<and> ids_apart plain_verifier es
       \<and> onlineUsers s = [(Some ''u2'', ''s2''), (Some ''u1'', ''s3'')]
       \<and> latest_connection plain_verifier es (Some ''u2'') = Some ''s2''
       \<and> latest_connection plain_verifier es (Some ''u1'') = Some ''s3''
       \<and> map fst (events (sendMessage env0 s [read_msg] ''u1'' hi_body)) = [Room (Some ''s2'')]
       \<and> events (deleteMessage env0 s [read_msg] ''u1'' ''m0'')
           = [(Room (Some ''s2''), MessageDeleted ''m0'')]
       \<and> events (markAsRead env0 s [read_msg] ''u2'' ''u1_u2'')
           = [(Room (Some ''s3''), MessagesRead (Some ''u2'') ''u1_u2'' (Some []))]
       \<and> receivers s (Some ''s2'') = [''s2''] \<and> receivers s (Some ''s3'') = [''s3''])"
proof -
  let ?es = "[Connect ''s0'' (Some ''u3''), Disconnect ''s0'', Connect ''s1'' (Some ''u2''),
              Connect ''s2'' (Some ''u2''), Connect ''s3'' (Some ''u1'')]"
  have h1: "\<forall>ev \<in> set ?es. is_presence_event ev" by simp
  from presence_registry_single_handle
         [OF h1, of plain_verifier "''s9''" "Some ''u9''" env0 "[read_msg]" "''u1''" hi_body
            "''u1''" "''m0''" "''u2''" "''u1_u2''"]
  show ?thesis by (simp add: ids_apart_def socket_defs rest_defs)
qed

end
